theory Spec2Isabelle
  imports Complex_Main
begin

section \<open>Strings\<close>

text \<open>
  A Go string is a sequence of bytes; it is modelled as a \<^typ>\<open>string\<close>, a list of
  8-bit characters.

  \<open>strings.ToLower\<close>: on a string whose bytes are all below 128 the bytes \<open>A\<close> to
  \<open>Z\<close> are mapped to \<open>a\<close> to \<open>z\<close> and every other byte is kept. On a string
  with a byte above 127 the library decodes the string and maps every rune through
  \<open>unicode.ToLower\<close>; the case tables of the library are not part of the program, and
  that mapping of the whole string is the parameter \<open>ul\<close> of \<open>ToLower\<close> and of the two
  functions of the program that call it.
\<close>

definition toLowerByte :: "char \<Rightarrow> char" where
  "toLowerByte c =
     (let n = (of_char c :: nat) in if 65 \<le> n \<and> n \<le> 90 then char_of (n + 32) else c)"

definition isASCII :: "string \<Rightarrow> bool" where
  "isASCII s = list_all (\<lambda>c. (of_char c :: nat) < 128) s"

definition ToLower :: "(string \<Rightarrow> string) \<Rightarrow> string \<Rightarrow> string" where
  "ToLower ul s = (if isASCII s then map toLowerByte s else ul s)"

text \<open>\<open>strings.HasPrefix\<close> and \<open>strings.Contains\<close>: a substring search from the left.\<close>

fun HasPrefix :: "string \<Rightarrow> string \<Rightarrow> bool" where
  "HasPrefix s [] = True"
| "HasPrefix [] (c # cs) = False"
| "HasPrefix (x # xs) (c # cs) = (x = c \<and> HasPrefix xs cs)"

fun Contains :: "string \<Rightarrow> string \<Rightarrow> bool" where
  "Contains [] substr = (substr = [])"
| "Contains (x # xs) substr = (HasPrefix (x # xs) substr \<or> Contains xs substr)"

section \<open>Classes, class indices and class counters\<close>

text \<open>\<open>type Class = string\<close>, \<open>type ClassCount = int\<close>, \<open>type ClassIndex = int\<close>.\<close>

type_synonym Class = string
type_synonym ClassCount = int
type_synonym ClassIndex = int

definition GUN :: Class where "GUN = ''gun''"
definition KNIFE :: Class where "KNIFE = ''knife''"
definition WRENCH :: Class where "WRENCH = ''wrench''"
definition FORK :: Class where "FORK = ''fork''"
definition SCREWDRIVER :: Class where "SCREWDRIVER = ''screwdriver''"
definition UNKNOWN :: Class where "UNKNOWN = ''unknown''"

definition knifeIndex :: ClassIndex where "knifeIndex = 0"
definition forkIndex :: ClassIndex where "forkIndex = 1"
definition gunIndex :: ClassIndex where "gunIndex = 2"
definition wrenchIndex :: ClassIndex where "wrenchIndex = 3"
definition screwdriverIndex :: ClassIndex where "screwdriverIndex = 4"

text \<open>
  The second result of \<open>getClassFromPath\<close> is a pointer to one of the package-level
  counters. A pointer is modelled by the name of the variable it points to.
\<close>

datatype CountVar =
  GunCount | KnifeCount | WrenchCount | ForkCount | ScrewdriverCount | UnknownCount

definition getIndexFromPath :: "(string \<Rightarrow> string) \<Rightarrow> string \<Rightarrow> ClassIndex" where
  "getIndexFromPath ul path0 =
     (let path = ToLower ul path0 in
      if Contains path GUN then gunIndex
      else if Contains path KNIFE then knifeIndex
      else if Contains path WRENCH then wrenchIndex
      else if Contains path FORK then forkIndex
      else if Contains path SCREWDRIVER then screwdriverIndex
      else - 1)"

definition getClassFromPath :: "(string \<Rightarrow> string) \<Rightarrow> string \<Rightarrow> Class \<times> CountVar" where
  "getClassFromPath ul path0 =
     (let path = ToLower ul path0 in
      if Contains path GUN then (GUN, GunCount)
      else if Contains path KNIFE then (KNIFE, KnifeCount)
      else if Contains path WRENCH then (WRENCH, WrenchCount)
      else if Contains path FORK then (FORK, ForkCount)
      else if Contains path SCREWDRIVER then (SCREWDRIVER, ScrewdriverCount)
      else (UNKNOWN, UnknownCount))"

text \<open>
  The classifier as the specification words it: the class keywords as a list in
  priority order, and the first keyword of that list that the lower-cased path contains.
\<close>

definition classKeywords :: "Class list" where
  "classKeywords = [''gun'', ''knife'', ''wrench'', ''fork'', ''screwdriver'']"

definition classifySpec :: "(string \<Rightarrow> string) \<Rightarrow> string \<Rightarrow> Class" where
  "classifySpec ul path =
     (case find (Contains (ToLower ul path)) classKeywords of
        Some k \<Rightarrow> k
      | None \<Rightarrow> ''unknown'')"

text \<open>The rank of a keyword in the priority order: 0 for the highest priority.\<close>

definition priority :: "Class \<Rightarrow> nat" where
  "priority c = length (takeWhile (\<lambda>k. k \<noteq> c) classKeywords)"

text \<open>The fixed table of class indices, with \<open>-1\<close> for the class \<open>unknown\<close>.\<close>

definition classIndexTable :: "Class \<Rightarrow> ClassIndex" where
  "classIndexTable c =
     (if c = ''knife'' then 0
      else if c = ''fork'' then 1
      else if c = ''gun'' then 2
      else if c = ''wrench'' then 3
      else if c = ''screwdriver'' then 4
      else - 1)"

section \<open>Integers and their decimal form\<close>

text \<open>
  A Go \<open>int\<close> is a 64-bit signed integer. It is modelled as an \<^typ>\<open>int\<close>;
  \<open>wrap64\<close> is the two's-complement wrap-around of an arithmetic result and is written
  out where the source adds or subtracts values read from the input. The counters are
  only ever incremented from 0, once per visited file, and stay far below \<open>2^63\<close>; their
  increment is modelled without the wrap.
\<close>

definition wrap64 :: "int \<Rightarrow> int" where
  "wrap64 i = (i + 2 ^ 63) mod 2 ^ 64 - 2 ^ 63"

definition digitChar :: "nat \<Rightarrow> char" where
  "digitChar d = ''0123456789'' ! d"

definition isDigit :: "char \<Rightarrow> bool" where
  "isDigit c = (48 \<le> (of_char c :: nat) \<and> (of_char c :: nat) \<le> 57)"

definition digitVal :: "char \<Rightarrow> nat" where
  "digitVal c = of_char c - 48"

function natToDec :: "nat \<Rightarrow> string" where
  "natToDec n = (if n < 10 then [digitChar n] else natToDec (n div 10) @ [digitChar (n mod 10)])"
  by pat_completeness auto
termination
  by (relation "measure id") auto

declare natToDec.simps [simp del]

text \<open>\<open>strconv.Itoa\<close>.\<close>

definition Itoa :: "int \<Rightarrow> string" where
  "Itoa i = (if i < 0 then CHR ''-'' # natToDec (nat (- i)) else natToDec (nat i))"

text \<open>
  Go error values, and the one run-time panic the program can raise (a method call on
  a nil \<open>fs.DirEntry\<close>), which ends the process as \<open>log.Fatal\<close> does.
\<close>

datatype error =
    ErrSyntax string
  | ErrRange string
  | StatError string
  | NotRegular string
  | OpenError string
  | CreateError string
  | ReadError string
  | CannotReadXML string
  | RelError string string
  | MarshalError
  | NilDereference

text \<open>
  \<open>strconv.ParseUint(s, 10, 64)\<close> after the empty-string check: the digits are
  accumulated from the left; a byte that is not a decimal digit is a syntax error with
  value 0; an accumulator that would leave the unsigned 64-bit range is a range error
  with the largest value, reported at that digit.
\<close>

fun parseUintLoop :: "string \<Rightarrow> nat \<Rightarrow> string \<Rightarrow> nat \<times> error option" where
  "parseUintLoop s0 n [] = (n, None)"
| "parseUintLoop s0 n (c # cs) =
     (if \<not> isDigit c then (0, Some (ErrSyntax s0))
      else if 1844674407370955162 \<le> n then (2 ^ 64 - 1, Some (ErrRange s0))
      else if 2 ^ 64 - 1 < n * 10 + digitVal c then (2 ^ 64 - 1, Some (ErrRange s0))
      else parseUintLoop s0 (n * 10 + digitVal c) cs)"

definition ParseUint :: "string \<Rightarrow> string \<Rightarrow> nat \<times> error option" where
  "ParseUint s0 s = (if s = [] then (0, Some (ErrSyntax s0)) else parseUintLoop s0 0 s)"

text \<open>
  \<open>strconv.Atoi\<close>, that is \<open>strconv.ParseInt(s, 10, 0)\<close>: an optional sign, then
  \<open>ParseUint\<close>. It returns a value together with the error: 0 with a syntax error, the
  nearest bound of the signed 64-bit range with a range error. (The library's fast path
  for strings shorter than 19 bytes computes the same pair.)
\<close>

definition Atoi :: "string \<Rightarrow> int \<times> error option" where
  "Atoi s =
     (if s = [] then (0, Some (ErrSyntax s))
      else
        let neg = (hd s = CHR ''-'');
            s1 = (if hd s = CHR ''+'' \<or> hd s = CHR ''-'' then tl s else s);
            (un, err) = ParseUint s s1
        in case err of
             Some (ErrRange x) \<Rightarrow>
               (if neg then (- (2 ^ 63), Some (ErrRange s)) else (2 ^ 63 - 1, Some (ErrRange s)))
           | Some e \<Rightarrow> (0, Some e)
           | None \<Rightarrow>
               if \<not> neg \<and> 2 ^ 63 \<le> un then (2 ^ 63 - 1, Some (ErrRange s))
               else if neg \<and> 2 ^ 63 < un then (- (2 ^ 63), Some (ErrRange s))
               else (if neg then - int un else int un, None))"

section \<open>Floating point\<close>

text \<open>
  A \<open>float64\<close> is an IEEE 754 binary64 value: a sign and a magnitude that is a
  rational number with a 53-bit significand, an infinity, or a NaN. The sign is kept apart
  from the magnitude, so that the two zeros are distinct. Every operation computes the
  exact rational result and rounds it to the nearest representable value, ties to the
  even significand.
\<close>

datatype float64 = Finite bool rat | Inf bool | NaN

function bitLen :: "nat \<Rightarrow> nat" where
  "bitLen n = (if n = 0 then 0 else Suc (bitLen (n div 2)))"
  by pat_completeness auto
termination
  by (relation "measure id") auto

declare bitLen.simps [simp del]

definition pow2 :: "int \<Rightarrow> rat" where
  "pow2 e = (if 0 \<le> e then 2 ^ nat e else 1 / 2 ^ nat (- e))"

text \<open>The exponent of a positive rational: the largest \<open>k\<close> with \<open>2^k \<le> r\<close>.\<close>

definition floorLog2 :: "rat \<Rightarrow> int" where
  "floorLog2 r =
     (if 1 \<le> r then int (bitLen (nat \<lfloor>r\<rfloor>)) - 1
      else - int (bitLen (nat (\<lceil>1 / r\<rceil> - 1))))"

definition roundHalfEven :: "rat \<Rightarrow> int" where
  "roundHalfEven q =
     (let f = \<lfloor>q\<rfloor>; d = q - of_int f
      in if d < 1 / 2 then f else if 1 / 2 < d then f + 1 else if even f then f else f + 1)"

text \<open>
  Rounding a non-negative exact result to binary64: the unit in the last place is
  \<open>2^(k - 52)\<close> for a result in \<open>[2^k, 2^(k+1))\<close>, and never below \<open>2^(-1074)\<close>
  (the subnormal range); a rounded magnitude of \<open>2^1024\<close> or more is an overflow.
\<close>

definition roundFloat64 :: "bool \<Rightarrow> rat \<Rightarrow> float64" where
  "roundFloat64 neg r =
     (if r = 0 then Finite neg 0
      else let e = max (floorLog2 r - 52) (- 1074);
               v = of_int (roundHalfEven (r / pow2 e)) * pow2 e
           in if pow2 1024 \<le> v then Inf neg else Finite neg v)"

text \<open>The conversion \<open>float64(i)\<close> of an integer.\<close>

definition float64_of_int :: "int \<Rightarrow> float64" where
  "float64_of_int i = roundFloat64 (i < 0) (of_int \<bar>i\<bar>)"

definition fmul :: "float64 \<Rightarrow> float64 \<Rightarrow> float64" where
  "fmul x y =
     (case (x, y) of
        (NaN, _) \<Rightarrow> NaN
      | (_, NaN) \<Rightarrow> NaN
      | (Inf s, Inf t) \<Rightarrow> Inf (s \<noteq> t)
      | (Inf s, Finite t b) \<Rightarrow> (if b = 0 then NaN else Inf (s \<noteq> t))
      | (Finite s a, Inf t) \<Rightarrow> (if a = 0 then NaN else Inf (s \<noteq> t))
      | (Finite s a, Finite t b) \<Rightarrow> roundFloat64 (s \<noteq> t) (a * b))"

definition fdiv :: "float64 \<Rightarrow> float64 \<Rightarrow> float64" where
  "fdiv x y =
     (case (x, y) of
        (NaN, _) \<Rightarrow> NaN
      | (_, NaN) \<Rightarrow> NaN
      | (Inf s, Inf t) \<Rightarrow> NaN
      | (Inf s, Finite t b) \<Rightarrow> Inf (s \<noteq> t)
      | (Finite s a, Inf t) \<Rightarrow> Finite (s \<noteq> t) 0
      | (Finite s a, Finite t b) \<Rightarrow>
          (if b = 0 then (if a = 0 then NaN else Inf (s \<noteq> t))
           else roundFloat64 (s \<noteq> t) (a / b)))"

definition signed :: "bool \<Rightarrow> rat \<Rightarrow> rat" where
  "signed neg a = (if neg then - a else a)"

definition fsub :: "float64 \<Rightarrow> float64 \<Rightarrow> float64" where
  "fsub x y =
     (case (x, y) of
        (NaN, _) \<Rightarrow> NaN
      | (_, NaN) \<Rightarrow> NaN
      | (Inf s, Inf t) \<Rightarrow> (if s = t then NaN else Inf s)
      | (Inf s, Finite t b) \<Rightarrow> Inf s
      | (Finite s a, Inf t) \<Rightarrow> Inf (\<not> t)
      | (Finite s a, Finite t b) \<Rightarrow>
          (let r = signed s a - signed t b
           in if r = 0 then Finite (s \<and> \<not> t) 0 else roundFloat64 (r < 0) \<bar>r\<bar>))"

text \<open>
  \<open>fmt.Sprintf("%f", x)\<close>: the sign, the integer part, a point and six decimals, the
  exact binary value rounded to six decimals, ties to even; \<open>+Inf\<close>, \<open>-Inf\<close> and
  \<open>NaN\<close> for the special values.
\<close>

fun fixedDigits :: "nat \<Rightarrow> nat \<Rightarrow> string" where
  "fixedDigits 0 n = []"
| "fixedDigits (Suc k) n = fixedDigits k (n div 10) @ [digitChar (n mod 10)]"

definition Sprintf_f :: "float64 \<Rightarrow> string" where
  "Sprintf_f x =
     (case x of
        NaN \<Rightarrow> ''NaN''
      | Inf neg \<Rightarrow> (if neg then ''-Inf'' else ''+Inf'')
      | Finite neg a \<Rightarrow>
          (let q = nat (roundHalfEven (a * 1000000))
           in (if neg then ''-'' else []) @ natToDec (q div 1000000) @ ''.''
                @ fixedDigits 6 (q mod 1000000)))"

section \<open>Strings and paths of the library\<close>

text \<open>
  \<open>strings.ReplaceAll\<close> and \<open>bytes.Replace\<close> with count \<open>-1\<close>, for a non-empty
  \<open>old\<close> (the program replaces \<open>\\\<close>, \<open>&#xA;\<close> and \<open>&#x9;\<close> only): every
  non-overlapping occurrence of \<open>old\<close>, from the left, becomes \<open>new\<close>.
\<close>

function ReplaceAll :: "string \<Rightarrow> string \<Rightarrow> string \<Rightarrow> string" where
  "ReplaceAll [] old new = []"
| "ReplaceAll (c # cs) old new =
     (if old \<noteq> [] \<and> HasPrefix (c # cs) old
      then new @ ReplaceAll (drop (length old) (c # cs)) old new
      else c # ReplaceAll cs old new)"
  by pat_completeness auto
termination
  by (relation "measure (\<lambda>(s, old, new). length s)") auto

text \<open>
  The functions of \<open>path/filepath\<close>, for a system whose separator is \<open>/\<close> and whose
  paths have no volume name.
\<close>

definition Separator :: char where
  "Separator = CHR ''/''"

text \<open>\<open>filepath.Ext\<close>: the suffix from the last dot of the last element, scanned from the end.\<close>

fun extScan :: "string \<Rightarrow> string \<Rightarrow> string" where
  "extScan [] acc = []"
| "extScan (c # cs) acc =
     (if c = Separator then []
      else if c = CHR ''.'' then c # acc
      else extScan cs (c # acc))"

definition Ext :: "string \<Rightarrow> string" where
  "Ext path = extScan (rev path) []"

text \<open>
  \<open>filepath.Base\<close>: \<open>.\<close> for the empty path; otherwise the trailing separators are
  stripped and what follows the last separator is returned, \<open>/\<close> if nothing is left.
\<close>

definition Base :: "string \<Rightarrow> string" where
  "Base path =
     (if path = [] then ''.''
      else
        let stripped = rev (dropWhile (\<lambda>c. c = Separator) (rev path));
            element = rev (takeWhile (\<lambda>c. c \<noteq> Separator) (rev stripped))
        in if element = [] then [Separator] else element)"

text \<open>\<open>strings.Split(s, "/")\<close> and \<open>strings.Join(elems, "/")\<close>.\<close>

fun splitSep :: "string \<Rightarrow> string list" where
  "splitSep [] = [[]]"
| "splitSep (c # cs) =
     (if c = Separator then [] # splitSep cs
      else (case splitSep cs of
              [] \<Rightarrow> [[c]]
            | w # ws \<Rightarrow> (c # w) # ws))"

fun joinSep :: "string list \<Rightarrow> string" where
  "joinSep [] = []"
| "joinSep [e] = e"
| "joinSep (e # es) = e @ Separator # joinSep es"

text \<open>
  \<open>filepath.Clean\<close>, on the elements of the path. Empty elements and \<open>.\<close> are
  dropped; \<open>..\<close> removes the element before it, is dropped at the root and is kept at
  the start of a path that is not rooted. \<open>out\<close> is the stack of the elements kept, the
  last one first.
\<close>

fun cleanElems :: "bool \<Rightarrow> string list \<Rightarrow> string list \<Rightarrow> string list" where
  "cleanElems rooted out [] = rev out"
| "cleanElems rooted out (e # es) =
     (if e = [] \<or> e = ''.'' then cleanElems rooted out es
      else if e = ''..'' then
        (case out of
           [] \<Rightarrow> if rooted then cleanElems rooted [] es else cleanElems rooted [''..''] es
         | t # ts \<Rightarrow>
             if t = ''..'' then cleanElems rooted (''..'' # out) es
             else cleanElems rooted ts es)
      else cleanElems rooted (e # out) es)"

definition Clean :: "string \<Rightarrow> string" where
  "Clean path =
     (if path = [] then ''.''
      else
        let rooted = (hd path = Separator);
            body = joinSep (cleanElems rooted [] (splitSep path))
        in if rooted then Separator # body
           else if body = [] then ''.''
           else body)"

text \<open>
  \<open>filepath.Join\<close>: the elements from the first non-empty one on, joined by the
  separator and cleaned; the empty string if every element is empty.
\<close>

definition Join :: "string list \<Rightarrow> string" where
  "Join elem =
     (case dropWhile (\<lambda>e. e = []) elem of
        [] \<Rightarrow> []
      | es \<Rightarrow> Clean (joinSep es))"

text \<open>\<open>filepath.Dir\<close>: the path up to its last separator, cleaned.\<close>

definition Dir :: "string \<Rightarrow> string" where
  "Dir path = Clean (rev (dropWhile (\<lambda>c. c \<noteq> Separator) (rev path)))"

text \<open>
  \<open>filepath.Rel\<close>. Both paths are cleaned; equal paths give \<open>.\<close>. Otherwise the
  elements the two paths share at the start are skipped; if the first element of the base
  that differs is \<open>..\<close>, or only one of the paths is rooted, there is no relative path;
  else the result climbs once for every remaining element of the base and descends into
  the rest of the target.
\<close>

definition relElems :: "string \<Rightarrow> string list" where
  "relElems p =
     (if p = [] then []
      else if last p = Separator then butlast (splitSep p)
      else splitSep p)"

fun relLoop :: "string \<Rightarrow> string \<Rightarrow> string list \<Rightarrow> string list \<Rightarrow> error + string" where
  "relLoop basepath targpath [] ts = Inr (joinSep ts)"
| "relLoop basepath targpath (b # bs) [] = Inr (joinSep (map (\<lambda>_. ''..'') (b # bs)))"
| "relLoop basepath targpath (b # bs) (t # ts) =
     (if b = t then relLoop basepath targpath bs ts
      else if b = ''..'' then Inl (RelError basepath targpath)
      else Inr (joinSep (map (\<lambda>_. ''..'') (b # bs) @ (t # ts))))"

definition Rel :: "string \<Rightarrow> string \<Rightarrow> error + string" where
  "Rel basepath targpath =
     (let base = Clean basepath;
          targ = Clean targpath
      in if targ = base then Inr ''.''
         else
           let base1 = (if base = ''.'' then [] else base);
               baseSlashed = (base1 \<noteq> [] \<and> hd base1 = Separator);
               targSlashed = (targ \<noteq> [] \<and> hd targ = Separator)
           in if baseSlashed \<noteq> targSlashed then Inl (RelError basepath targpath)
              else relLoop basepath targpath (relElems base1) (relElems targ))"

section \<open>The annotation record\<close>

text \<open>
  \<open>labelledXML\<close> and its nested structs. Every leaf is a string. The fields of a
  nested struct carry the name of the struct where Go would reuse a field name
  (\<open>Text\<close>, \<open>Name\<close>).
\<close>

record Source =
  Source_Text :: string
  Database :: string

record Size =
  Size_Text :: string
  Width :: string
  Height :: string
  Depth :: string

record Bndbox =
  Bndbox_Text :: string
  Xmin :: string
  Ymin :: string
  Xmax :: string
  Ymax :: string

record Object =
  Object_Text :: string
  Object_Name :: string
  Pose :: string
  Truncated :: string
  Difficult :: string
  Bndbox :: Bndbox

record labelledXML =
  XMLName :: "string \<times> string"
  Text :: string
  Folder :: string
  Filename :: string
  Path :: string
  Source :: Source
  Size :: Size
  Segmented :: string
  Object :: Object

text \<open>The zero value \<open>labelledXML{}\<close>: every field empty.\<close>

definition emptyXML :: labelledXML where
  "emptyXML =
     \<lparr>XMLName = ([], []), Text = [], Folder = [], Filename = [], Path = [],
      Source = \<lparr>Source_Text = [], Database = []\<rparr>,
      Size = \<lparr>Size_Text = [], Width = [], Height = [], Depth = []\<rparr>,
      Segmented = [],
      Object = \<lparr>Object_Text = [], Object_Name = [], Pose = [], Truncated = [], Difficult = [],
                Bndbox = \<lparr>Bndbox_Text = [], Xmin = [], Ymin = [], Xmax = [], Ymax = []\<rparr>\<rparr>\<rparr>"

section \<open>The file system and the program state\<close>

text \<open>
  What the program reads from the world outside it. The program reads below
  \<open>dataset\<close> and writes below \<open>output\<close> only, so what it reads does not change
  during a run.
  \<^item> \<open>walk root\<close>: the calls that \<open>filepath.WalkDir(root, fn)\<close> makes to \<open>fn\<close>, in
    order, each with a path and a directory entry; the entry is nil (\<open>None\<close>) in the
    single call made when \<open>root\<close> cannot be read at all.
  \<^item> \<open>statRegular p\<close>: \<open>os.Stat(p)\<close>; \<open>None\<close> is its error, \<open>Some b\<close> tells
    whether the mode is that of a regular file.
  \<^item> \<open>openable p\<close>: whether \<open>os.Open(p)\<close> succeeds.
  \<^item> \<open>decoded p\<close>: the record that \<open>xml.NewDecoder(file).Decode\<close> leaves behind for
    the file \<open>p\<close>; the zero record when nothing could be decoded.
  \<^item> \<open>contents p\<close>: the bytes that \<open>io.Copy\<close> transfers from \<open>p\<close>, and its error.
  \<^item> \<open>creatable p\<close>: whether \<open>os.Create(p)\<close> and \<open>ioutil.WriteFile(p, ...)\<close> succeed,
    after the \<open>os.MkdirAll\<close> that \<open>createOutputDir\<close> has made for the directory.
  \<^item> \<open>MarshalIndent\<close>: \<open>xml.MarshalIndent(data, "", "  ")\<close>.
  \<^item> \<open>unicodeLower\<close>: what \<open>strings.ToLower\<close> returns for a string with a byte above
    127, by the case tables of the library.
\<close>

record DirEntry =
  Name :: string
  IsDir :: bool

record FS =
  walk :: "string \<Rightarrow> (string \<times> DirEntry option) list"
  statRegular :: "string \<Rightarrow> bool option"
  openable :: "string \<Rightarrow> bool"
  decoded :: "string \<Rightarrow> labelledXML"
  contents :: "string \<Rightarrow> string \<times> error option"
  creatable :: "string \<Rightarrow> bool"
  MarshalIndent :: "labelledXML \<Rightarrow> string \<times> error option"
  unicodeLower :: "string \<Rightarrow> string"

text \<open>
  What the program changes: its package-level variables (the six class counters, read and
  written through a \<open>CountVar\<close>, \<open>TotalCount\<close> and \<open>copiedImages\<close>) and the files it
  has written, the oldest first.
\<close>

datatype event =
    WriteFile string string
  | CopyFile string string string

record state =
  counts :: "CountVar \<Rightarrow> ClassCount"
  TotalCount :: ClassCount
  copiedImages :: "string list"
  written :: "event list"

definition initState :: state where
  "initState = \<lparr>counts = (\<lambda>v. 0), TotalCount = 0, copiedImages = [], written = []\<rparr>"


fun copySource :: "event \<Rightarrow> string option" where
  "copySource (WriteFile p b) = None"
| "copySource (CopyFile src dst b) = Some src"

text \<open>
  \<open>filepath.WalkDir\<close>: \<open>fn\<close> is called on the entries in order; the first error it
  returns ends the walk and is the result.
\<close>

fun walkEntries ::
  "('s \<Rightarrow> string \<times> DirEntry option \<Rightarrow> error option \<times> 's)
    \<Rightarrow> (string \<times> DirEntry option) list \<Rightarrow> 's \<Rightarrow> error option \<times> 's" where
  "walkEntries fn [] s = (None, s)"
| "walkEntries fn (e # es) s =
     (case fn s e of
        (Some err, s1) \<Rightarrow> (Some err, s1)
      | (None, s1) \<Rightarrow> walkEntries fn es s1)"

definition WalkDir ::
  "FS \<Rightarrow> string \<Rightarrow> ('s \<Rightarrow> string \<times> DirEntry option \<Rightarrow> error option \<times> 's)
    \<Rightarrow> 's \<Rightarrow> error option \<times> 's" where
  "WalkDir fs rootPath fn s = walkEntries fn (walk fs rootPath) s"

section \<open>The program\<close>

text \<open>
  \<open>copy(src, dst)\<close>. The source is recorded in \<open>copiedImages\<close> once the destination
  has been created, whatever \<open>io.Copy\<close> returns. The result is the pair that the Go
  function returns, together with the new state.
\<close>

definition copy :: "FS \<Rightarrow> state \<Rightarrow> string \<Rightarrow> string \<Rightarrow> (int \<times> error option) \<times> state" where
  "copy fs s src dst =
     (case statRegular fs src of
        None \<Rightarrow> ((0, Some (StatError src)), s)
      | Some regular \<Rightarrow>
          if \<not> regular then ((0, Some (NotRegular src)), s)
          else if \<not> openable fs src then ((0, Some (OpenError src)), s)
          else if \<not> creatable fs dst then ((0, Some (CreateError dst)), s)
          else
            let (bytes, err) = contents fs src
            in ((int (length bytes), err),
                s\<lparr>copiedImages := copiedImages s @ [src],
                  written := written s @ [CopyFile src dst bytes]\<rparr>))"

text \<open>
  \<open>createOutputDir\<close> also calls \<open>os.MkdirAll\<close> and ignores its result; the directory
  it makes is accounted for in \<open>creatable\<close>.
\<close>

definition createOutputDir :: "string \<Rightarrow> string" where
  "createOutputDir dir = Join [''output'', dir]"

definition getOutputFileName :: "Class \<Rightarrow> ClassCount \<Rightarrow> string \<Rightarrow> string" where
  "getOutputFileName class classCount path =
     Join [createOutputDir class, class @ ''_'' @ Itoa classCount @ Ext path]"

text \<open>
  \<open>readLabelled\<close> returns a pointer and an error: the pointer is nil (\<open>None\<close>) only
  together with the error of \<open>os.Open\<close>. The result of \<open>Decode\<close> is discarded.
\<close>

definition readLabelled :: "FS \<Rightarrow> string \<Rightarrow> labelledXML option \<times> error option" where
  "readLabelled fs filename =
     (if \<not> openable fs filename then (None, Some (OpenError filename))
      else (Some (decoded fs filename), None))"

text \<open>
  \<open>findCorrespondingFile\<close>. The closure \<open>walker\<close> assigns to the captured variable
  \<open>found\<close>, which is the state of the two walks; it always returns nil, and raises the
  nil-dereference panic on a nil entry. The function returns \<open>found\<close>, or the panic.
\<close>

definition walker :: "string \<Rightarrow> string \<Rightarrow> string \<times> DirEntry option \<Rightarrow> error option \<times> string" where
  "walker baseName found e =
     (case snd e of
        None \<Rightarrow> (Some NilDereference, found)
      | Some d \<Rightarrow> (None, if \<not> IsDir d \<and> Name d = baseName then fst e else found))"

definition findCorrespondingFile :: "FS \<Rightarrow> string \<Rightarrow> error + string" where
  "findCorrespondingFile fs p =
     (let baseName = Base (ReplaceAll p [CHR 0x5C] ''/'')
      in case WalkDir fs ''dataset/images'' (walker baseName) [] of
           (Some e, found) \<Rightarrow> Inl e
         | (None, found) \<Rightarrow>
             if length found = 0
             then (case WalkDir fs ''dataset/allimages'' (walker baseName) found of
                     (Some e, found1) \<Rightarrow> Inl e
                   | (None, found1) \<Rightarrow> Inr found1)
             else Inr found)"

text \<open>
  The \<open>yolo\<close> branch of \<open>scanAllLabelled\<close>, lines 268 to 280: the label line computed
  from the class index and the six integers.
\<close>

definition yoloLine :: "ClassIndex \<Rightarrow> int \<Rightarrow> int \<Rightarrow> int \<Rightarrow> int \<Rightarrow> int \<Rightarrow> int \<Rightarrow> string" where
  "yoloLine classIndex xMin yMin xMax yMax width height =
     (let dw = fdiv (Finite False 1) (float64_of_int width);
          dh = fdiv (Finite False 1) (float64_of_int height);
          x = fsub (fdiv (float64_of_int (wrap64 (xMin + xMax))) (Finite False 2)) (Finite False 1);
          y = fsub (fdiv (float64_of_int (wrap64 (yMin + yMax))) (Finite False 2)) (Finite False 1);
          w = float64_of_int (wrap64 (xMax - xMin));
          h = float64_of_int (wrap64 (yMax - yMin));
          xStr = Sprintf_f (fmul x dw);
          wStr = Sprintf_f (fmul w dw);
          yStr = Sprintf_f (fmul y dh);
          hStr = Sprintf_f (fmul h dh)
      in Itoa classIndex @ '' '' @ xStr @ '' '' @ yStr @ '' '' @ wStr @ '' '' @ hStr)"

text \<open>
  The \<open>yolo\<close> branch of \<open>scanAllLabelled\<close>, lines 253 to 286. The variable \<open>err\<close> is
  assigned by each of the six calls of \<open>strconv.Atoi\<close> and tested once, after the last.
\<close>

definition yoloBranch ::
  "FS \<Rightarrow> state \<Rightarrow> labelledXML \<Rightarrow> ClassIndex \<Rightarrow> string \<Rightarrow> error option \<times> state" where
  "yoloBranch fs s data classIndex foundImage =
     (let outputFile = Join [createOutputDir ''yolo'', Itoa (TotalCount s) @ ''.jpg''];
          outputYoloFile = Join [createOutputDir ''yolo'', Itoa (TotalCount s) @ ''.txt''];
          (xMax, err) = Atoi (Xmax (Bndbox (Object data)));
          (xMin, err) = Atoi (Xmin (Bndbox (Object data)));
          (yMax, err) = Atoi (Ymax (Bndbox (Object data)));
          (yMin, err) = Atoi (Ymin (Bndbox (Object data)));
          (width, err) = Atoi (Width (Size data));
          (height, err) = Atoi (Height (Size data))
      in case err of
           Some e \<Rightarrow> (Some e, s)
         | None \<Rightarrow>
             if \<not> creatable fs outputYoloFile then (Some (CreateError outputYoloFile), s)
             else
               let s1 = s\<lparr>written := written s
                            @ [WriteFile outputYoloFile
                                 (yoloLine classIndex xMin yMin xMax yMax width height)]\<rparr>;
                   (r, s2) = copy fs s1 foundImage outputFile
               in (None, s2\<lparr>TotalCount := TotalCount s2 + 1\<rparr>))"

text \<open>The other branch of \<open>scanAllLabelled\<close>, lines 223 to 251.\<close>

definition annotationBranch ::
  "FS \<Rightarrow> state \<Rightarrow> string \<Rightarrow> labelledXML \<Rightarrow> Class \<Rightarrow> CountVar \<Rightarrow> string
    \<Rightarrow> error option \<times> state" where
  "annotationBranch fs s path data class classCount foundImage =
     (let outputFile = getOutputFileName class (counts s classCount) (Ext foundImage);
          xmlOutFile = getOutputFileName class (counts s classCount) (Ext path)
      in case Rel (Dir xmlOutFile) (Dir outputFile) of
           Inl e \<Rightarrow> (Some e, s)
         | Inr rel \<Rightarrow>
             let relativeImagePath = Join [rel, Base outputFile];
                 data1 = data\<lparr>Path := relativeImagePath,
                              Filename := Base outputFile,
                              Object := (Object data)\<lparr>Object_Name := class\<rparr>\<rparr>;
                 (b, err) = MarshalIndent fs data1;
                 b1 = ReplaceAll b ''&#xA;'' [];
                 b2 = ReplaceAll b1 ''&#x9;'' []
             in case err of
                  Some e \<Rightarrow> (Some e, s)
                | None \<Rightarrow>
                    if \<not> creatable fs xmlOutFile then (Some (CreateError xmlOutFile), s)
                    else
                      let s1 = s\<lparr>written := written s @ [WriteFile xmlOutFile b2]\<rparr>;
                          (r, s2) = copy fs s1 foundImage outputFile
                      in (None, s2\<lparr>counts := (counts s2)(classCount := counts s2 classCount + 1)\<rparr>))"

text \<open>The function that \<open>scanAllLabelled\<close> passes to \<open>filepath.WalkDir\<close>.\<close>

definition scanAllLabelledFn ::
  "bool \<Rightarrow> FS \<Rightarrow> state \<Rightarrow> string \<times> DirEntry option \<Rightarrow> error option \<times> state" where
  "scanAllLabelledFn yolo fs s e =
     (let path = fst e
      in case snd e of
           None \<Rightarrow> (Some NilDereference, s)
         | Some d \<Rightarrow>
             if Ext (Name d) = ''.xml'' then
               (case readLabelled fs path of
                  (dataPtr, Some err) \<Rightarrow> (Some err, s)
                | (None, None) \<Rightarrow> (Some (CannotReadXML path), s)
                | (Some data, None) \<Rightarrow>
                    let (class, classCount) =
                          (if fst (getClassFromPath (unicodeLower fs) path) = UNKNOWN
                           then getClassFromPath (unicodeLower fs) (Path data)
                           else getClassFromPath (unicodeLower fs) path);
                        classIndex =
                          (if getIndexFromPath (unicodeLower fs) path = - 1
                           then getIndexFromPath (unicodeLower fs) (Path data)
                           else getIndexFromPath (unicodeLower fs) path)
                    in case findCorrespondingFile fs (Path data) of
                         Inl panic \<Rightarrow> (Some panic, s)
                       | Inr foundImage \<Rightarrow>
                           if length foundImage \<noteq> 0 then
                             (if \<not> yolo
                              then annotationBranch fs s path data class classCount foundImage
                              else yoloBranch fs s data classIndex foundImage)
                           else (None, s))
             else (None, s))"

text \<open>
  \<open>scanAllLabelled\<close>: a result \<open>Some err\<close> is the end of the process, by
  \<open>log.Fatal(err)\<close> or by the panic.
\<close>

definition scanAllLabelled :: "bool \<Rightarrow> FS \<Rightarrow> state \<Rightarrow> error option \<times> state" where
  "scanAllLabelled yolo fs s = WalkDir fs ''dataset'' (scanAllLabelledFn yolo fs) s"

text \<open>
  The function that \<open>scanImages\<close> passes to \<open>filepath.WalkDir\<close>. It reads neither the
  entry nor the error it is given, and does not read the result of \<open>copy\<close>.
\<close>

definition scanImagesFn :: "FS \<Rightarrow> state \<Rightarrow> string \<times> DirEntry option \<Rightarrow> error option \<times> state" where
  "scanImagesFn fs s e =
     (let path = fst e
      in if path \<notin> set (copiedImages s) then
           let (class, classCount) = getClassFromPath (unicodeLower fs) path;
               outputFile = getOutputFileName class (counts s classCount) (Ext path);
               (r, s1) = copy fs s path outputFile
           in (None, s1\<lparr>counts := (counts s1)(classCount := counts s1 classCount + 1)\<rparr>)
         else (None, s))"

definition scanImages :: "FS \<Rightarrow> state \<Rightarrow> error option \<times> state" where
  "scanImages fs s = WalkDir fs ''dataset/images'' (scanImagesFn fs) s"



section \<open>When a copy is made\<close>

text \<open>
  \<open>copy\<close> reaches \<open>io.Copy\<close>, and records the source, exactly when the source is a
  regular file that can be opened and the destination can be created.
\<close>

definition copyPossible :: "FS \<Rightarrow> string \<Rightarrow> string \<Rightarrow> bool" where
  "copyPossible fs src dst =
     (statRegular fs src = Some True \<and> openable fs src \<and> creatable fs dst)"

text \<open>
  The sources of the copies among the files written, in the order of the copies, and the
  property that \<open>copiedImages\<close> lists exactly these.
\<close>

definition copySources :: "event list \<Rightarrow> string list" where
  "copySources evs = List.map_filter copySource evs"

definition recorded :: "state \<Rightarrow> bool" where
  "recorded s = (copiedImages s = copySources (written s))"

text \<open>The output name that \<open>scanImages\<close> computes for a path in the state \<open>s\<close>.\<close>

definition sweepTarget :: "FS \<Rightarrow> state \<Rightarrow> string \<Rightarrow> string" where
  "sweepTarget fs s path =
     getOutputFileName (fst (getClassFromPath (unicodeLower fs) path))
       (counts s (snd (getClassFromPath (unicodeLower fs) path))) (Ext path)"

text \<open>The files written between the state \<open>s1\<close> and a later state \<open>s2\<close>.\<close>

definition sweepEvents :: "state \<Rightarrow> state \<Rightarrow> event list" where
  "sweepEvents s1 s2 = drop (length (written s1)) (written s2)"

section \<open>Output names and the counters that issue them\<close>

text \<open>The targets of the copies and of the files written by \<open>ioutil.WriteFile\<close>, in order.\<close>

fun copyTarget :: "event \<Rightarrow> string option" where
  "copyTarget (WriteFile p b) = None"
| "copyTarget (CopyFile src dst b) = Some dst"

fun writeTarget :: "event \<Rightarrow> string option" where
  "writeTarget (WriteFile p b) = Some p"
| "writeTarget (CopyFile src dst b) = None"

definition copyTargets :: "event list \<Rightarrow> string list" where
  "copyTargets evs = List.map_filter copyTarget evs"

definition writeTargets :: "event list \<Rightarrow> string list" where
  "writeTargets evs = List.map_filter writeTarget evs"







section \<open>The matches of the image resolver\<close>

text \<open>
  An entry of a walk matches a base name when it is not a directory and carries that
  name; \<open>matches\<close> lists the paths of the matching entries in the order of the walk.
\<close>

definition isMatch :: "string \<Rightarrow> string \<times> DirEntry option \<Rightarrow> bool" where
  "isMatch baseName e =
     (case snd e of None \<Rightarrow> False | Some d \<Rightarrow> \<not> IsDir d \<and> Name d = baseName)"

definition matches :: "string \<Rightarrow> (string \<times> DirEntry option) list \<Rightarrow> string list" where
  "matches baseName entries = map fst (filter (isMatch baseName) entries)"

text \<open>
  The resolver as the specification words it: the first match of the walk of the primary
  root, the first match of the walk of the secondary root if the primary root has none,
  the empty string if neither has one.
\<close>

definition resolveSpec :: "FS \<Rightarrow> string \<Rightarrow> string" where
  "resolveSpec fs p =
     (let baseName = Base (ReplaceAll p [CHR 0x5C] ''/'')
      in case matches baseName (walk fs ''dataset/images'') of
           m # ms \<Rightarrow> m
         | [] \<Rightarrow> (case matches baseName (walk fs ''dataset/allimages'') of
                    m # ms \<Rightarrow> m
                  | [] \<Rightarrow> []))"

section \<open>Example datasets\<close>

text \<open>
  Small datasets on which the program is run below. \<open>fileEntry\<close> and \<open>dirEntry\<close> are the
  directory entries of a regular file and of a directory.
\<close>

definition fileEntry :: "string \<Rightarrow> DirEntry option" where
  "fileEntry name = Some \<lparr>Name = name, IsDir = False\<rparr>"

definition dirEntry :: "string \<Rightarrow> DirEntry option" where
  "dirEntry name = Some \<lparr>Name = name, IsDir = True\<rparr>"

text \<open>
  The sample dataset: the images \<open>dataset/images/a.jpg\<close> and
  \<open>dataset/images/b.jpg\<close>, the annotation file \<open>dataset/knife/a.xml\<close> and an empty
  directory \<open>dataset/allimages\<close>. These are the three walks of the program, in lexical
  order.
\<close>

definition sampleWalk :: "string \<Rightarrow> (string \<times> DirEntry option) list" where
  "sampleWalk rootPath =
     (if rootPath = ''dataset'' then
        [(''dataset'', dirEntry ''dataset''),
         (''dataset/allimages'', dirEntry ''allimages''),
         (''dataset/images'', dirEntry ''images''),
         (''dataset/images/a.jpg'', fileEntry ''a.jpg''),
         (''dataset/images/b.jpg'', fileEntry ''b.jpg''),
         (''dataset/knife'', dirEntry ''knife''),
         (''dataset/knife/a.xml'', fileEntry ''a.xml'')]
      else if rootPath = ''dataset/images'' then
        [(''dataset/images'', dirEntry ''images''),
         (''dataset/images/a.jpg'', fileEntry ''a.jpg''),
         (''dataset/images/b.jpg'', fileEntry ''b.jpg'')]
      else if rootPath = ''dataset/allimages'' then
        [(''dataset/allimages'', dirEntry ''allimages'')]
      else [(rootPath, None)])"

text \<open>
  An annotation of the image \<open>a.jpg\<close>, of width 100 and height 50, with the box
  \<open>(10, 10, xmax, 30)\<close>.
\<close>

definition annotationOf :: "string \<Rightarrow> labelledXML" where
  "annotationOf xmax =
     \<lparr>XMLName = ([], ''annotation''), Text = [], Folder = ''images'', Filename = ''a.jpg'',
      Path = ''a.jpg'',
      Source = \<lparr>Source_Text = [], Database = ''Unknown''\<rparr>,
      Size = \<lparr>Size_Text = [], Width = ''100'', Height = ''50'', Depth = ''3''\<rparr>,
      Segmented = ''0'',
      Object = \<lparr>Object_Text = [], Object_Name = ''knife'', Pose = ''Unspecified'',
                Truncated = ''0'', Difficult = ''0'',
                Bndbox = \<lparr>Bndbox_Text = [], Xmin = ''10'', Ymin = ''10'', Xmax = xmax,
                          Ymax = ''30''\<rparr>\<rparr>\<rparr>"

text \<open>
  The file system of that dataset: every file is a regular file that can be read, every
  output file can be written; the annotation file decodes to \<open>data\<close>. Every path of
  the dataset is an ASCII string, so that \<open>unicodeLower\<close> is never applied.
\<close>

definition sampleFS :: "labelledXML \<Rightarrow> FS" where
  "sampleFS data =
     \<lparr>walk = sampleWalk,
      statRegular = (\<lambda>p. if p = ''dataset/images/a.jpg'' \<or> p = ''dataset/images/b.jpg''
                             \<or> p = ''dataset/knife/a.xml''
                          then Some True else Some False),
      openable = (\<lambda>p. True),
      decoded = (\<lambda>p. data),
      contents = (\<lambda>p. (''JPEG'', None)),
      creatable = (\<lambda>p. True),
      MarshalIndent = (\<lambda>d. (''<annotation>'' @ Filename d @ ''</annotation>'', None)),
      unicodeLower = id\<rparr>"

text \<open>
  A primary image root with two images of the same name, \<open>a/x.jpg\<close> and \<open>b/x.jpg\<close>,
  and an empty secondary root.
\<close>

definition twoMatchesWalk :: "string \<Rightarrow> (string \<times> DirEntry option) list" where
  "twoMatchesWalk rootPath =
     (if rootPath = ''dataset/images'' then
        [(''dataset/images'', dirEntry ''images''),
         (''dataset/images/a'', dirEntry ''a''),
         (''dataset/images/a/x.jpg'', fileEntry ''x.jpg''),
         (''dataset/images/b'', dirEntry ''b''),
         (''dataset/images/b/x.jpg'', fileEntry ''x.jpg'')]
      else if rootPath = ''dataset/allimages'' then
        [(''dataset/allimages'', dirEntry ''allimages'')]
      else [(rootPath, None)])"

definition twoMatchesFS :: FS where
  "twoMatchesFS = (sampleFS emptyXML)\<lparr>walk := twoMatchesWalk\<rparr>"

text \<open>
  The sample dataset with a valid annotation and an image that cannot be opened (its
  permissions do not allow it).
\<close>

definition unreadableImageFS :: FS where
  "unreadableImageFS =
     (sampleFS (annotationOf ''50''))\<lparr>openable := (\<lambda>p. p \<noteq> ''dataset/images/a.jpg'')\<rparr>"

text \<open>
  The same primary root in a dataset without the directory \<open>dataset/allimages\<close>: the
  walk of a root that cannot be read is a single call, without an entry.
\<close>

definition missingFallbackFS :: FS where
  "missingFallbackFS =
     twoMatchesFS\<lparr>walk := (\<lambda>rootPath. if rootPath = ''dataset/images''
                                      then twoMatchesWalk rootPath else [(rootPath, None)])\<rparr>"
section \<open>Substring search\<close>

lemma HasPrefix_iff: "HasPrefix s p \<longleftrightarrow> (\<exists>r. s = p @ r)"
  by (induction s p rule: HasPrefix.induct) auto

lemma Contains_iff: "Contains s sub \<longleftrightarrow> (\<exists>p r. s = p @ sub @ r)"
proof (induction s)
  case Nil
  then show ?case by auto
next
  case (Cons x xs)
  show ?case
  proof
    assume "Contains (x # xs) sub"
    then consider "HasPrefix (x # xs) sub" | "Contains xs sub" by auto
    then show "\<exists>p r. x # xs = p @ sub @ r"
    proof cases
      case 1
      then obtain r where "x # xs = [] @ sub @ r" by (auto simp: HasPrefix_iff)
      then show ?thesis by blast
    next
      case 2
      with Cons obtain p r where "xs = p @ sub @ r" by blast
      then have "x # xs = (x # p) @ sub @ r" by simp
      then show ?thesis by blast
    qed
  next
    assume "\<exists>p r. x # xs = p @ sub @ r"
    then obtain p r where eq: "x # xs = p @ sub @ r" by blast
    show "Contains (x # xs) sub"
    proof (cases p)
      case Nil
      with eq have "HasPrefix (x # xs) sub" by (auto simp: HasPrefix_iff)
      then show ?thesis by simp
    next
      case (Cons y p')
      with eq have "xs = p' @ sub @ r" by simp
      with Cons.IH have "Contains xs sub" by blast
      then show ?thesis by simp
    qed
  qed
qed

section \<open>The classifier\<close>

lemmas class_defs = GUN_def KNIFE_def WRENCH_def FORK_def SCREWDRIVER_def UNKNOWN_def

lemmas index_defs =
  knifeIndex_def forkIndex_def gunIndex_def wrenchIndex_def screwdriverIndex_def

text \<open>
  Claim C1. For every path, \<open>getIndexFromPath\<close> returns the index that the fixed table
  (knife 0, fork 1, gun 2, wrench 3, screwdriver 4, none -1) gives to the keyword that
  decides the lower-cased path: it is \<open>-1\<close> exactly when no class keyword occurs in the
  lower-cased path, an index of the table is returned only when its keyword occurs, and
  a path in which one keyword only occurs gets the index of that keyword. The lower-cased
  path is what \<open>strings.ToLower\<close> returns, whatever the case tables \<open>ul\<close> of the
  library are.
\<close>

theorem getIndexFromPath_table:
  "getIndexFromPath ul path = classIndexTable (classifySpec ul path)
   \<and> (getIndexFromPath ul path = - 1 \<longleftrightarrow> (\<forall>k \<in> set classKeywords. \<not> Contains (ToLower ul path) k))
   \<and> (\<forall>k \<in> set classKeywords.
         getIndexFromPath ul path = classIndexTable k \<longrightarrow> Contains (ToLower ul path) k)
   \<and> (\<forall>k \<in> set classKeywords.
         Contains (ToLower ul path) k
          \<and> (\<forall>k' \<in> set classKeywords. k' \<noteq> k \<longrightarrow> \<not> Contains (ToLower ul path) k')
         \<longrightarrow> getIndexFromPath ul path = classIndexTable k)"
  by (simp add: getIndexFromPath_def classifySpec_def classIndexTable_def classKeywords_def
      class_defs index_defs Let_def)

theorem getIndexFromPath_table_witness:
  "getIndexFromPath id ''dataset/Knife/IMG_1.xml'' = 0
   \<and> getIndexFromPath id ''dataset/misc/IMG_2.xml'' = - 1"
proof -
  have a: "''knife'' \<in> set classKeywords"
    by (simp add: classKeywords_def)
  have b: "Contains (ToLower id ''dataset/Knife/IMG_1.xml'') ''knife''"
    by code_simp
  have c: "\<forall>k' \<in> set classKeywords.
             k' \<noteq> ''knife'' \<longrightarrow> \<not> Contains (ToLower id ''dataset/Knife/IMG_1.xml'') k'"
    unfolding classKeywords_def by code_simp
  have d: "\<forall>k \<in> set classKeywords. \<not> Contains (ToLower id ''dataset/misc/IMG_2.xml'') k"
    unfolding classKeywords_def by code_simp
  have e: "classIndexTable ''knife'' = 0"
    by (simp add: classIndexTable_def)
  from getIndexFromPath_table [of id "''dataset/Knife/IMG_1.xml''"] a b c e
    getIndexFromPath_table [of id "''dataset/misc/IMG_2.xml''"] d
  show ?thesis by metis
qed

text \<open>
  Claim C2. For every path, \<open>getClassFromPath\<close> returns the first keyword, in the order
  gun, knife, wrench, fork, screwdriver, that the lower-cased path contains: a path with
  exactly one keyword gets that class; a path with several gets a keyword it contains
  whose priority is not below that of any other keyword it contains; a path with none
  gets \<open>unknown\<close> (and the counter of \<open>unknown\<close>). The lower-cased path is what
  \<open>strings.ToLower\<close> returns, whatever the case tables \<open>ul\<close> of the library are.
\<close>

theorem getClassFromPath_priority:
  "fst (getClassFromPath ul path) = classifySpec ul path
   \<and> (\<forall>k \<in> set classKeywords.
         Contains (ToLower ul path) k
          \<and> (\<forall>k' \<in> set classKeywords. k' \<noteq> k \<longrightarrow> \<not> Contains (ToLower ul path) k')
         \<longrightarrow> fst (getClassFromPath ul path) = k)
   \<and> (\<forall>k \<in> set classKeywords.
         Contains (ToLower ul path) k
         \<longrightarrow> fst (getClassFromPath ul path) \<in> set classKeywords
           \<and> Contains (ToLower ul path) (fst (getClassFromPath ul path))
           \<and> priority (fst (getClassFromPath ul path)) \<le> priority k)
   \<and> ((\<forall>k \<in> set classKeywords. \<not> Contains (ToLower ul path) k)
         \<longrightarrow> getClassFromPath ul path = (UNKNOWN, UnknownCount))"
  by (simp add: getClassFromPath_def classifySpec_def classKeywords_def priority_def
      class_defs Let_def)

theorem getClassFromPath_priority_witness:
  "fst (getClassFromPath id ''dataset/WRENCH/a.xml'') = ''wrench''
   \<and> priority (fst (getClassFromPath id ''data/Fork_and_Knife.xml'')) \<le> priority ''fork''
   \<and> getClassFromPath id ''dataset/misc/IMG_2.xml'' = (UNKNOWN, UnknownCount)"
proof -
  have a: "''wrench'' \<in> set classKeywords" "''fork'' \<in> set classKeywords"
    by (simp_all add: classKeywords_def)
  have b: "Contains (ToLower id ''dataset/WRENCH/a.xml'') ''wrench''"
    by code_simp
  have c: "\<forall>k' \<in> set classKeywords.
             k' \<noteq> ''wrench'' \<longrightarrow> \<not> Contains (ToLower id ''dataset/WRENCH/a.xml'') k'"
    unfolding classKeywords_def by code_simp
  have d: "Contains (ToLower id ''data/Fork_and_Knife.xml'') ''fork''"
    by code_simp
  have e: "\<forall>k \<in> set classKeywords. \<not> Contains (ToLower id ''dataset/misc/IMG_2.xml'') k"
    unfolding classKeywords_def by code_simp
  from getClassFromPath_priority [of id "''dataset/WRENCH/a.xml''"] a(1) b c
  have 1: "fst (getClassFromPath id ''dataset/WRENCH/a.xml'') = ''wrench''"
    by blast
  from getClassFromPath_priority [of id "''data/Fork_and_Knife.xml''"] a(2) d
  have 2: "priority (fst (getClassFromPath id ''data/Fork_and_Knife.xml'')) \<le> priority ''fork''"
    by blast
  from getClassFromPath_priority [of id "''dataset/misc/IMG_2.xml''"] e
  have 3: "getClassFromPath id ''dataset/misc/IMG_2.xml'' = (UNKNOWN, UnknownCount)"
    by blast
  from 1 2 3 show ?thesis by simp
qed

text \<open>
  Claim C10. For every path, \<open>getIndexFromPath\<close> returns \<open>-1\<close> exactly when
  \<open>getClassFromPath\<close> returns \<open>unknown\<close>, and the index it returns is the index that the
  fixed table gives to the class that \<open>getClassFromPath\<close> returns, whatever the case
  tables \<open>ul\<close> of the library are.
\<close>

theorem index_class_consistent:
  "(getIndexFromPath ul path = - 1 \<longleftrightarrow> fst (getClassFromPath ul path) = UNKNOWN)
   \<and> getIndexFromPath ul path = classIndexTable (fst (getClassFromPath ul path))"
  by (simp add: getIndexFromPath_def getClassFromPath_def classIndexTable_def
      class_defs index_defs Let_def)


section \<open>Evaluation of concrete inputs\<close>

text \<open>
  Rewrite rules that let the simplifier compute with the definitions above on concrete
  inputs: floor and ceiling of a quotient of numerals, the six decimals of \<open>%f\<close>, and
  the definitions of the floating-point operations.
\<close>

lemma floor_rat_numeral: "\<lfloor>numeral a / numeral b :: rat\<rfloor> = numeral a div numeral b"
  by (metis floor_divide_of_int_eq of_int_numeral)

lemma ceiling_rat_numeral: "\<lceil>numeral a / numeral b :: rat\<rceil> = - (- numeral a div numeral b)"
  by (metis ceiling_divide_eq_div of_int_numeral)

lemma fixedDigits_numeral:
  "fixedDigits (numeral k) n = fixedDigits (pred_numeral k) (n div 10) @ [digitChar (n mod 10)]"
  by (metis fixedDigits.simps(2) numeral_eq_Suc)

lemmas float_eval =
  roundFloat64_def floorLog2_def bitLen.simps pow2_def roundHalfEven_def Let_def
  fmul_def fdiv_def fsub_def signed_def float64_of_int_def floor_rat_numeral ceiling_rat_numeral

lemmas digits_eval = natToDec.simps digitChar_def fixedDigits_numeral

lemmas lower_eval = ToLower_def isASCII_def toLowerByte_def char_of_def bit_Suc_0_iff

section \<open>The label line of the normalized-box mode\<close>

text \<open>
  Claim C3, as the specification states it, expects the line
  \<open><idx> 0.280000 0.380000 0.400000 0.400000\<close> for the image of width 100 and height 50
  and the box \<open>(10, 10, 50, 30)\<close>. The program computes \<open>cx = (10 + 50) / 2 - 1 = 29\<close>
  and \<open>29 * (1 / 100)\<close>, which \<open>%f\<close> prints as \<open>0.290000\<close>: with the class index 0
  the line it writes is not the line of the specification.
\<close>

theorem yoloLine_not_spec_example:
  "yoloLine 0 10 10 50 30 100 50 \<noteq> ''0 0.280000 0.380000 0.400000 0.400000''"
  by (simp add: yoloLine_def Sprintf_f_def float_eval wrap64_def) (simp add: Itoa_def digits_eval)

text \<open>
  Claim C3, amended: for the input width 100, height 50 and the box
  \<open>(xmin = 10, ymin = 10, xmax = 50, ymax = 30)\<close>, the normalized-box computation
  produces, for every class index, exactly the line
  \<open><idx> 0.290000 0.380000 0.400000 0.400000\<close>, where \<open><idx>\<close> is the class index in
  decimal.
\<close>

theorem yoloLine_example:
  "yoloLine classIndex 10 10 50 30 100 50
     = Itoa classIndex @ '' 0.290000 0.380000 0.400000 0.400000''"
  by (simp add: yoloLine_def Sprintf_f_def float_eval wrap64_def) (simp add: digits_eval)

section \<open>The annotation pass on the sample dataset\<close>

lemmas path_eval =
  Ext_def Base_def Separator_def Join_def Clean_def Dir_def createOutputDir_def
  getOutputFileName_def

lemmas atoi_eval = Atoi_def ParseUint_def isDigit_def digitVal_def

lemma sampleFS_fields:
  "walk (sampleFS d) = sampleWalk"
  "statRegular (sampleFS d) ''dataset/images/a.jpg'' = Some True"
  "statRegular (sampleFS d) ''dataset/images/b.jpg'' = Some True"
  "openable (sampleFS d) p = True"
  "decoded (sampleFS d) p = d"
  "contents (sampleFS d) p = (''JPEG'', None)"
  "creatable (sampleFS d) p = True"
  by (simp_all add: sampleFS_def)

lemma sampleWalk_roots:
  "sampleWalk ''dataset'' =
     [(''dataset'', dirEntry ''dataset''),
      (''dataset/allimages'', dirEntry ''allimages''),
      (''dataset/images'', dirEntry ''images''),
      (''dataset/images/a.jpg'', fileEntry ''a.jpg''),
      (''dataset/images/b.jpg'', fileEntry ''b.jpg''),
      (''dataset/knife'', dirEntry ''knife''),
      (''dataset/knife/a.xml'', fileEntry ''a.xml'')]"
  "sampleWalk ''dataset/images'' =
     [(''dataset/images'', dirEntry ''images''),
      (''dataset/images/a.jpg'', fileEntry ''a.jpg''),
      (''dataset/images/b.jpg'', fileEntry ''b.jpg'')]"
  "sampleWalk ''dataset/allimages'' = [(''dataset/allimages'', dirEntry ''allimages'')]"
  by (simp_all add: sampleWalk_def)

lemma Itoa_0: "Itoa 0 = ''0''"
  by (simp add: Itoa_def digits_eval)

lemma sample_extensions:
  "Ext ''dataset'' = []" "Ext ''allimages'' = []" "Ext ''images'' = []"
  "Ext ''a.jpg'' = ''.jpg''" "Ext ''b.jpg'' = ''.jpg''" "Ext ''knife'' = []"
  "Ext ''a.xml'' = ''.xml''"
  by (simp_all add: Ext_def Separator_def)

lemma annotationOf_Path: "Path (annotationOf xmax) = ''a.jpg''"
  by (simp add: annotationOf_def)

lemma sample_found:
  "walk fs = sampleWalk \<Longrightarrow> findCorrespondingFile fs ''a.jpg'' = Inr ''dataset/images/a.jpg''"
  by (simp add: findCorrespondingFile_def walker_def WalkDir_def sampleWalk_roots
      fileEntry_def dirEntry_def path_eval)

lemma sample_not_found:
  "walk fs = sampleWalk \<Longrightarrow> findCorrespondingFile fs [] = Inr []"
  by (simp add: findCorrespondingFile_def walker_def WalkDir_def sampleWalk_roots
      fileEntry_def dirEntry_def path_eval)

lemma sample_class: "getClassFromPath ul ''dataset/knife/a.xml'' = (KNIFE, KnifeCount)"
  by (simp add: getClassFromPath_def lower_eval class_defs)

lemma sample_index: "getIndexFromPath ul ''dataset/knife/a.xml'' = 0"
  by (simp add: getIndexFromPath_def lower_eval class_defs index_defs)

lemma scanAllLabelledFn_other:
  "Ext name \<noteq> ''.xml'' \<Longrightarrow>
     scanAllLabelledFn yolo fs s (p, Some \<lparr>Name = name, IsDir = b\<rparr>) = (None, s)"
  by (simp add: scanAllLabelledFn_def)

text \<open>
  On the sample dataset the annotation pass comes down to the call of the walk on the
  annotation file, the last of the walk.
\<close>

lemma sample_pass:
  assumes "walk fs = sampleWalk"
  shows "scanAllLabelled yolo fs s =
     scanAllLabelledFn yolo fs s
       (''dataset/knife/a.xml'', Some \<lparr>Name = ''a.xml'', IsDir = False\<rparr>)"
  by (simp add: scanAllLabelled_def WalkDir_def assms sampleWalk_roots dirEntry_def
      fileEntry_def scanAllLabelledFn_other sample_extensions)
    (simp split: prod.split option.split)

lemma sample_step:
  assumes "walk fs = sampleWalk" and "openable fs ''dataset/knife/a.xml''"
    and "Path (decoded fs ''dataset/knife/a.xml'') = ''a.jpg''"
  shows "scanAllLabelledFn yolo fs s
       (''dataset/knife/a.xml'', Some \<lparr>Name = ''a.xml'', IsDir = False\<rparr>)
     = (if \<not> yolo
        then annotationBranch fs s ''dataset/knife/a.xml'' (decoded fs ''dataset/knife/a.xml'')
               KNIFE KnifeCount ''dataset/images/a.jpg''
        else yoloBranch fs s (decoded fs ''dataset/knife/a.xml'') 0 ''dataset/images/a.jpg'')"
  by (simp add: scanAllLabelledFn_def sample_extensions readLabelled_def assms
      sample_found sample_class sample_index UNKNOWN_def KNIFE_def Let_def)

lemma sample_empty_step:
  assumes "walk fs = sampleWalk" and "openable fs ''dataset/knife/a.xml''"
    and "Path (decoded fs ''dataset/knife/a.xml'') = []"
  shows "scanAllLabelledFn yolo fs s
     (''dataset/knife/a.xml'', Some \<lparr>Name = ''a.xml'', IsDir = False\<rparr>) = (None, s)"
  by (simp add: scanAllLabelledFn_def sample_extensions readLabelled_def assms
      sample_not_found sample_class sample_index UNKNOWN_def KNIFE_def)

lemma yoloLine_xmax_0:
  "yoloLine 0 10 10 0 30 100 50 = ''0 0.040000 0.380000 -0.100000 0.400000''"
  by (simp add: yoloLine_def Sprintf_f_def float_eval wrap64_def) (simp add: Itoa_def digits_eval)

text \<open>
  The normalized-box branch on the sample annotation: whatever the conversion of \<open>xmax\<close>
  returns, its value is used and its error is not read.
\<close>

lemma sample_yoloBranch:
  assumes "Atoi xmax = (v, e)"
  shows "yoloBranch (sampleFS d0) initState (annotationOf xmax) 0 ''dataset/images/a.jpg''
     = (None, initState\<lparr>TotalCount := 1, copiedImages := [''dataset/images/a.jpg''],
          written := [WriteFile ''output/yolo/0.txt'' (yoloLine 0 10 10 v 30 100 50),
                      CopyFile ''dataset/images/a.jpg'' ''output/yolo/0.jpg'' ''JPEG'']\<rparr>)"
proof -
  have fields: "Xmax (Bndbox (Object (annotationOf xmax))) = xmax"
    "Xmin (Bndbox (Object (annotationOf xmax))) = ''10''"
    "Ymax (Bndbox (Object (annotationOf xmax))) = ''30''"
    "Ymin (Bndbox (Object (annotationOf xmax))) = ''10''"
    "Width (Size (annotationOf xmax)) = ''100''"
    "Height (Size (annotationOf xmax)) = ''50''"
    by (simp_all add: annotationOf_def)
  have parsed: "Atoi ''10'' = (10, None)" "Atoi ''30'' = (30, None)"
    "Atoi ''100'' = (100, None)" "Atoi ''50'' = (50, None)"
    by (simp_all add: atoi_eval)
  have names: "Join [createOutputDir ''yolo'', ''0.jpg''] = ''output/yolo/0.jpg''"
    "Join [createOutputDir ''yolo'', ''0.txt''] = ''output/yolo/0.txt''"
    by (simp_all add: path_eval)
  show ?thesis
    by (simp add: yoloBranch_def copy_def initState_def Itoa_0 sampleFS_fields fields parsed
        names assms Let_def)
qed

lemma Atoi_abc: "Atoi ''abc'' = (0, Some (ErrSyntax ''abc''))"
  by (simp add: atoi_eval)

text \<open>
  Claim C5 says that an annotation file whose decoding yields the record with all fields
  empty is reported as an error that ends the run. \<open>readLabelled\<close> returns a pointer to
  the record it allocated, never nil, so the test for nil in the driver (\<open>Cannot read XML\<close>)
  never fires: on the sample dataset with an annotation file that decodes to the empty
  record, the pass ends without an error, in either mode, and has changed nothing.
\<close>

theorem empty_record_not_reported:
  "readLabelled (sampleFS emptyXML) ''dataset/knife/a.xml'' = (Some emptyXML, None)
   \<and> scanAllLabelled yolo (sampleFS emptyXML) initState = (None, initState)"
proof
  show "readLabelled (sampleFS emptyXML) ''dataset/knife/a.xml'' = (Some emptyXML, None)"
    by (simp add: readLabelled_def sampleFS_fields)
  show "scanAllLabelled yolo (sampleFS emptyXML) initState = (None, initState)"
    by (simp add: sample_pass sample_empty_step sampleFS_fields emptyXML_def)
qed

text \<open>
  Claim C8 says that in the normalized-box mode a geometry field that is not an integer
  ends the processing of the file with an error and without output. The program tests the
  error of the last of its six conversions only: with \<open>xmax = abc\<close> and the five other
  fields valid, the pass ends without an error, and has written the label file, computed
  with \<open>xmax = 0\<close>, and the copy of the image.
\<close>

theorem unparsed_xmax_not_reported:
  "scanAllLabelled True (sampleFS (annotationOf ''abc'')) initState =
     (None, initState\<lparr>TotalCount := 1, copiedImages := [''dataset/images/a.jpg''],
        written := [WriteFile ''output/yolo/0.txt'' ''0 0.040000 0.380000 -0.100000 0.400000'',
                    CopyFile ''dataset/images/a.jpg'' ''output/yolo/0.jpg'' ''JPEG'']\<rparr>)"
  by (simp add: sample_pass sample_step sampleFS_fields sample_yoloBranch [OF Atoi_abc]
      annotationOf_Path yoloLine_xmax_0)

section \<open>The image resolver\<close>

text \<open>
  A walk of \<open>walker\<close> over entries that are all present never fails, and leaves in
  \<open>found\<close> the last match, or what \<open>found\<close> held before if there is no match.
\<close>

lemma walkEntries_walker:
  "\<forall>e\<in>set es. snd e \<noteq> None \<Longrightarrow>
     walkEntries (walker b) es found
       = (None, if matches b es = [] then found else last (matches b es))"
proof (induction es arbitrary: found)
  case Nil
  show ?case by (simp add: matches_def)
next
  case (Cons e es)
  from Cons.prems obtain d where d: "snd e = Some d" by auto
  from Cons.prems have rest: "\<forall>e\<in>set es. snd e \<noteq> None" by simp
  have step: "walker b found e = (None, if isMatch b e then fst e else found)"
    by (simp add: walker_def d isMatch_def)
  show ?case
    using Cons.IH [OF rest] by (simp add: step matches_def)
qed

lemma matches_nonempty:
  assumes "\<forall>e\<in>set es. fst e \<noteq> []" and "matches b es \<noteq> []"
  shows "last (matches b es) \<noteq> []"
proof -
  from assms(2) have "last (matches b es) \<in> set (matches b es)" by simp
  then have "last (matches b es) \<in> fst ` set es" by (auto simp: matches_def)
  with assms(1) show ?thesis by auto
qed

text \<open>A walk of \<open>walker\<close> that meets a call without an entry ends with the panic.\<close>

lemma walkEntries_walker_nil:
  "\<not> list_all (\<lambda>e. snd e \<noteq> None) es \<Longrightarrow>
     fst (walkEntries (walker b) es found) = Some NilDereference"
proof (induction es arbitrary: found)
  case Nil
  then show ?case by simp
next
  case (Cons e es)
  show ?case
  proof (cases "snd e")
    case None
    then have "walker b found e = (Some NilDereference, found)"
      by (simp add: walker_def)
    then show ?thesis by simp
  next
    case (Some d)
    then have step: "walker b found e = (None, if isMatch b e then fst e else found)"
      by (simp add: walker_def isMatch_def)
    from Some Cons.prems have "\<not> list_all (\<lambda>e. snd e \<noteq> None) es" by simp
    from Cons.IH [OF this] show ?thesis by (simp add: step)
  qed
qed

lemma twoMatches_eval:
  "matches ''x.jpg'' (walk twoMatchesFS ''dataset/images'')
     = [''dataset/images/a/x.jpg'', ''dataset/images/b/x.jpg'']"
  "matches ''x.jpg'' (walk twoMatchesFS ''dataset/allimages'') = []"
  "Base ''x.jpg'' = ''x.jpg''"
  by (simp_all add: matches_def isMatch_def twoMatchesFS_def twoMatchesWalk_def dirEntry_def
      fileEntry_def path_eval)

lemma twoMatches_present:
  "\<forall>e\<in>set (walk twoMatchesFS ''dataset/images''). snd e \<noteq> None \<and> fst e \<noteq> []"
  "\<forall>e\<in>set (walk twoMatchesFS ''dataset/allimages''). snd e \<noteq> None \<and> fst e \<noteq> []"
  by (simp_all add: twoMatchesFS_def twoMatchesWalk_def dirEntry_def fileEntry_def)

text \<open>
  Claim C4, as the specification states it, makes the resolver return the first match of
  the walk of the primary root. \<open>walker\<close> assigns \<open>found\<close> at every match and the walk
  goes on to its end: with the two images \<open>a/x.jpg\<close> and \<open>b/x.jpg\<close> under the primary
  root the resolver returns \<open>b/x.jpg\<close>, not the first match \<open>a/x.jpg\<close>.
\<close>

theorem findCorrespondingFile_not_first:
  "findCorrespondingFile twoMatchesFS ''x.jpg'' \<noteq> Inr (resolveSpec twoMatchesFS ''x.jpg'')"
proof -
  have "\<forall>e\<in>set (walk twoMatchesFS ''dataset/images''). snd e \<noteq> None"
    using twoMatches_present(1) by blast
  then show ?thesis
    by (simp add: findCorrespondingFile_def WalkDir_def walkEntries_walker resolveSpec_def
        twoMatches_eval Let_def)
qed

lemma missingFallback_eval:
  "matches ''x.jpg'' (walk missingFallbackFS ''dataset/images'')
     = [''dataset/images/a/x.jpg'', ''dataset/images/b/x.jpg'']"
  "matches ''y.jpg'' (walk missingFallbackFS ''dataset/images'') = []"
  "list_all (\<lambda>e. snd e \<noteq> None \<and> fst e \<noteq> []) (walk missingFallbackFS ''dataset/images'')"
  "\<not> list_all (\<lambda>e. snd e \<noteq> None) (walk missingFallbackFS ''dataset/allimages'')"
  "Base ''y.jpg'' = ''y.jpg''"
  by (simp_all add: matches_def isMatch_def missingFallbackFS_def twoMatchesFS_def
      twoMatchesWalk_def dirEntry_def fileEntry_def path_eval)

text \<open>
  Claim C4, amended: for every recorded image path, when the walk of the primary image
  root delivers an entry and a non-empty path at every call, the resolver returns the
  last match encountered during that walk whose base name equals the base name of the
  recorded path; the secondary root is walked only if the primary root yields no match,
  and then the last match of its walk is returned, the empty string if neither root
  contains a match; a secondary root that is walked and cannot be read ends the run with
  the panic of the call on a nil entry.
\<close>

theorem findCorrespondingFile_last_match:
  assumes "\<forall>e\<in>set (walk fs ''dataset/images''). snd e \<noteq> None \<and> fst e \<noteq> []"
  shows "findCorrespondingFile fs p =
     (let baseName = Base (ReplaceAll p [CHR 0x5C] ''/'');
          primary = matches baseName (walk fs ''dataset/images'');
          secondary = matches baseName (walk fs ''dataset/allimages'')
      in if primary \<noteq> [] then Inr (last primary)
         else if list_all (\<lambda>e. snd e \<noteq> None) (walk fs ''dataset/allimages'')
         then Inr (if secondary \<noteq> [] then last secondary else [])
         else Inl NilDereference)"
proof -
  let ?b = "Base (ReplaceAll p [CHR 0x5C] ''/'')"
  let ?S = "walk fs ''dataset/allimages''"
  from assms have n1: "\<forall>e\<in>set (walk fs ''dataset/images''). snd e \<noteq> None"
    and e1: "\<forall>e\<in>set (walk fs ''dataset/images''). fst e \<noteq> []"
    by auto
  show ?thesis
  proof (cases "list_all (\<lambda>e. snd e \<noteq> None) ?S")
    case True
    then have n2: "\<forall>e\<in>set ?S. snd e \<noteq> None"
      by (simp add: list_all_iff)
    show ?thesis
      using matches_nonempty [OF e1] True
      by (simp add: findCorrespondingFile_def WalkDir_def walkEntries_walker [OF n1]
          walkEntries_walker [OF n2] Let_def)
  next
    case False
    obtain found1 where "walkEntries (walker ?b) ?S [] = (Some NilDereference, found1)"
      using walkEntries_walker_nil [OF False, of ?b "[]"]
      by (cases "walkEntries (walker ?b) ?S []") simp
    then show ?thesis
      using matches_nonempty [OF e1] False
      by (simp add: findCorrespondingFile_def WalkDir_def walkEntries_walker [OF n1] Let_def)
  qed
qed

theorem findCorrespondingFile_last_match_witness:
  "list_all (\<lambda>e. snd e \<noteq> None \<and> fst e \<noteq> []) (walk missingFallbackFS ''dataset/images'')
   \<and> findCorrespondingFile missingFallbackFS ''x.jpg'' = Inr ''dataset/images/b/x.jpg''
   \<and> findCorrespondingFile missingFallbackFS ''y.jpg'' = Inl NilDereference"
proof -
  have present:
    "\<forall>e\<in>set (walk missingFallbackFS ''dataset/images''). snd e \<noteq> None \<and> fst e \<noteq> []"
    using missingFallback_eval(3) by (simp add: list_all_iff)
  from findCorrespondingFile_last_match [OF present, of "''x.jpg''"]
  have "findCorrespondingFile missingFallbackFS ''x.jpg'' = Inr ''dataset/images/b/x.jpg''"
    by (simp add: missingFallback_eval twoMatches_eval Let_def)
  moreover from findCorrespondingFile_last_match [OF present, of "''y.jpg''"]
    missingFallback_eval(4)
  have "findCorrespondingFile missingFallbackFS ''y.jpg'' = Inl NilDereference"
    by (simp add: missingFallback_eval(2,5) Let_def)
  ultimately show ?thesis using missingFallback_eval(3) by blast
qed

section \<open>The annotation-rewrite mode\<close>

lemma copy_state:
  "snd (copy fs s src dst) =
     (if copyPossible fs src dst
      then s\<lparr>copiedImages := copiedImages s @ [src],
             written := written s @ [CopyFile src dst (fst (contents fs src))]\<rparr>
      else s)"
  by (simp add: copy_def copyPossible_def split_def Let_def split: option.split)

lemma unreadable_fields:
  "walk unreadableImageFS = sampleWalk"
  "statRegular unreadableImageFS ''dataset/images/a.jpg'' = Some True"
  "openable unreadableImageFS p = (p \<noteq> ''dataset/images/a.jpg'')"
  "decoded unreadableImageFS p = annotationOf ''50''"
  "creatable unreadableImageFS p = True"
  "MarshalIndent unreadableImageFS d = (''<annotation>'' @ Filename d @ ''</annotation>'', None)"
  by (simp_all add: unreadableImageFS_def sampleFS_def)

lemma knife_0_names:
  "getOutputFileName KNIFE 0 ''.jpg'' = ''output/knife/knife_0.jpg''"
  "getOutputFileName KNIFE 0 ''.xml'' = ''output/knife/knife_0.xml''"
  "Rel (Dir ''output/knife/knife_0.xml'') (Dir ''output/knife/knife_0.jpg'') = Inr ''.''"
  "Base ''output/knife/knife_0.jpg'' = ''knife_0.jpg''"
  "Join [''.'', ''knife_0.jpg''] = ''knife_0.jpg''"
  by (simp_all add: path_eval Rel_def Itoa_0 KNIFE_def)

lemma sample_path_extensions:
  "Ext ''dataset/knife/a.xml'' = ''.xml''" "Ext ''dataset/images/a.jpg'' = ''.jpg''"
  by (simp_all add: Ext_def Separator_def)

lemma unreadable_annotationBranch:
  "annotationBranch unreadableImageFS initState ''dataset/knife/a.xml'' (annotationOf ''50'')
       KNIFE KnifeCount ''dataset/images/a.jpg''
     = (None, initState\<lparr>counts := (\<lambda>v. 0)(KnifeCount := 1),
          written := [WriteFile ''output/knife/knife_0.xml''
                        ''<annotation>knife_0.jpg</annotation>'']\<rparr>)"
  by (simp add: annotationBranch_def initState_def sample_path_extensions knife_0_names
      unreadable_fields copy_def Let_def)

text \<open>
  Claim C7, as the specification states it, makes the annotation file, the image copy and
  the increment of the counter happen together or not at all. The program does not read
  the result of \<open>copy\<close>: with an image that cannot be opened, the pass in mode A ends
  without an error, has written the annotation file and has incremented the counter of
  the class, and has written no image.
\<close>

theorem annotation_written_without_image:
  "fst (scanAllLabelled False unreadableImageFS initState) = None
   \<and> counts (snd (scanAllLabelled False unreadableImageFS initState)) KnifeCount = 1
   \<and> written (snd (scanAllLabelled False unreadableImageFS initState))
       = [WriteFile ''output/knife/knife_0.xml'' ''<annotation>knife_0.jpg</annotation>'']"
  by (simp add: sample_pass sample_step unreadable_fields annotationOf_Path
      unreadable_annotationBranch)

text \<open>
  Claim C7, amended: in mode A, for every annotation that reaches the rewriting branch:
  if the branch returns an error (no relative path, a failed serialization, or a failed
  write of the annotation file), nothing has been written and no counter has changed;
  otherwise the annotation file has been written and the counter of the class has been
  incremented exactly once, and the image copy has been written exactly when the image is
  a regular file that can be opened and whose destination can be created. A failed image
  copy undoes neither the annotation file nor the increment.
\<close>

theorem annotationBranch_effects:
  assumes "annotationBranch fs s path data class cv img = (r, s')"
  shows "(r \<noteq> None \<longrightarrow> s' = s) \<and>
     (r = None \<longrightarrow>
        counts s' = (counts s)(cv := counts s cv + 1) \<and>
        TotalCount s' = TotalCount s \<and>
        (\<exists>b. written s' =
           written s @ WriteFile (getOutputFileName class (counts s cv) (Ext path)) b #
             (if copyPossible fs img (getOutputFileName class (counts s cv) (Ext img))
              then [CopyFile img (getOutputFileName class (counts s cv) (Ext img))
                      (fst (contents fs img))]
              else [])))"
proof -
  let ?out = "getOutputFileName class (counts s cv) (Ext img)"
  let ?xml = "getOutputFileName class (counts s cv) (Ext path)"
  show ?thesis
  proof (cases "Rel (Dir ?xml) (Dir ?out)")
    case (Inl e)
    with assms show ?thesis by (auto simp: annotationBranch_def Let_def)
  next
    case (Inr rel)
    obtain b err where m: "MarshalIndent fs (data\<lparr>Path := Join [rel, Base ?out],
        Filename := Base ?out, Object := (Object data)\<lparr>Object_Name := class\<rparr>\<rparr>) = (b, err)"
      by (cases "MarshalIndent fs (data\<lparr>Path := Join [rel, Base ?out],
        Filename := Base ?out, Object := (Object data)\<lparr>Object_Name := class\<rparr>\<rparr>)")
    show ?thesis
    proof (cases err)
      case (Some e)
      with assms Inr m show ?thesis by (auto simp: annotationBranch_def Let_def)
    next
      case None
      show ?thesis
      proof (cases "creatable fs ?xml")
        case False
        with assms Inr m None show ?thesis by (auto simp: annotationBranch_def Let_def)
      next
        case True
        let ?s1 = "s\<lparr>written := written s @ [WriteFile ?xml
                      (ReplaceAll (ReplaceAll b ''&#xA;'' []) ''&#x9;'' [])]\<rparr>"
        from assms Inr m None True
        have r: "r = None"
          and s': "s' = (snd (copy fs ?s1 img ?out))\<lparr>counts :=
                     (counts (snd (copy fs ?s1 img ?out)))
                       (cv := counts (snd (copy fs ?s1 img ?out)) cv + 1)\<rparr>"
          by (simp_all add: annotationBranch_def Let_def split_def)
        show ?thesis
          unfolding s' copy_state using r by auto
      qed
    qed
  qed
qed

theorem annotationBranch_effects_witness:
  "fst (annotationBranch unreadableImageFS initState ''dataset/knife/a.xml''
          (annotationOf ''50'') KNIFE KnifeCount ''dataset/images/a.jpg'') = None
   \<and> counts (snd (annotationBranch unreadableImageFS initState ''dataset/knife/a.xml''
          (annotationOf ''50'') KNIFE KnifeCount ''dataset/images/a.jpg'')) KnifeCount = 1
   \<and> \<not> copyPossible unreadableImageFS ''dataset/images/a.jpg'' ''output/knife/knife_0.jpg''"
proof -
  have e: "annotationBranch unreadableImageFS initState ''dataset/knife/a.xml''
          (annotationOf ''50'') KNIFE KnifeCount ''dataset/images/a.jpg''
      = (None, snd (annotationBranch unreadableImageFS initState ''dataset/knife/a.xml''
          (annotationOf ''50'') KNIFE KnifeCount ''dataset/images/a.jpg''))"
    by (simp add: unreadable_annotationBranch)
  from annotationBranch_effects [OF e]
  have "counts (snd (annotationBranch unreadableImageFS initState ''dataset/knife/a.xml''
          (annotationOf ''50'') KNIFE KnifeCount ''dataset/images/a.jpg''))
      = (counts initState)(KnifeCount := counts initState KnifeCount + 1)"
    by simp
  then have "counts (snd (annotationBranch unreadableImageFS initState ''dataset/knife/a.xml''
          (annotationOf ''50'') KNIFE KnifeCount ''dataset/images/a.jpg'')) KnifeCount = 1"
    by (simp add: initState_def)
  moreover have "fst (annotationBranch unreadableImageFS initState ''dataset/knife/a.xml''
          (annotationOf ''50'') KNIFE KnifeCount ''dataset/images/a.jpg'') = None"
    by (simp add: unreadable_annotationBranch)
  moreover have
    "\<not> copyPossible unreadableImageFS ''dataset/images/a.jpg'' ''output/knife/knife_0.jpg''"
    by (simp add: copyPossible_def unreadable_fields)
  ultimately show ?thesis by blast
qed

section \<open>The copied images and the sweep\<close>

text \<open>
  Every function of the program keeps \<open>copiedImages\<close> equal to the list of the sources
  of the copies made: \<open>copy\<close> is the only one that changes either.
\<close>

lemma copySources_simps [simp]:
  "copySources [] = []"
  "copySources (WriteFile p b # evs) = copySources evs"
  "copySources (CopyFile src dst b # evs) = src # copySources evs"
  "copySources (xs @ ys) = copySources xs @ copySources ys"
  by (simp_all add: copySources_def map_filter_def)

lemma recorded_updates [simp]:
  "recorded (s\<lparr>counts := c\<rparr>) = recorded s"
  "recorded (s\<lparr>TotalCount := n\<rparr>) = recorded s"
  "recorded (s\<lparr>written := written s @ [WriteFile p b]\<rparr>) = recorded s"
  by (simp_all add: recorded_def)

lemma recorded_copy: "recorded s \<Longrightarrow> recorded (snd (copy fs s src dst))"
  by (simp add: copy_state recorded_def)

lemma recorded_yoloBranch:
  "recorded s \<Longrightarrow> recorded (snd (yoloBranch fs s data classIndex img))"
  by (simp add: yoloBranch_def Let_def split_def recorded_copy split: option.split)

lemma recorded_annotationBranch:
  "recorded s \<Longrightarrow> recorded (snd (annotationBranch fs s path data class cv img))"
  by (simp add: annotationBranch_def Let_def split_def recorded_copy
      split: option.split sum.split)

lemma recorded_scanAllLabelledFn:
  "recorded s \<Longrightarrow> recorded (snd (scanAllLabelledFn yolo fs s e))"
  by (simp add: scanAllLabelledFn_def Let_def split_def recorded_yoloBranch
      recorded_annotationBranch split: option.split sum.split)

lemma walkEntries_preserves:
  assumes "\<And>s e. P s \<Longrightarrow> P (snd (fn s e))"
  shows "P s \<Longrightarrow> P (snd (walkEntries fn es s))"
proof (induction es arbitrary: s)
  case Nil
  then show ?case by simp
next
  case (Cons e es)
  from assms [OF Cons.prems, of e] Cons.IH [of "snd (fn s e)"]
  show ?case by (cases "fn s e") (auto split: option.split)
qed

lemma recorded_scanAllLabelled:
  "recorded s \<Longrightarrow> recorded (snd (scanAllLabelled yolo fs s))"
  unfolding scanAllLabelled_def WalkDir_def
  by (rule walkEntries_preserves) (rule recorded_scanAllLabelledFn)

lemma recorded_initState: "recorded initState"
  by (simp add: recorded_def initState_def)

lemma scanImagesFn_result:
  "scanImagesFn fs s e =
     (None,
      if fst e \<in> set (copiedImages s) then s
      else (snd (copy fs s (fst e) (sweepTarget fs s (fst e))))
             \<lparr>counts := (counts s)(snd (getClassFromPath (unicodeLower fs) (fst e)) :=
                          counts s (snd (getClassFromPath (unicodeLower fs) (fst e))) + 1)\<rparr>)"
  by (simp add: scanImagesFn_def sweepTarget_def Let_def split_def copy_state)

lemma sweep_walk:
  assumes "walkEntries (scanImagesFn fs) es s = (r, s')"
  shows "r = None \<and>
     (\<exists>evs. written s' = written s @ evs
        \<and> copiedImages s' = copiedImages s @ copySources evs
        \<and> distinct (copySources evs)
        \<and> set (copySources evs) \<inter> set (copiedImages s) = {}
        \<and> (\<forall>p\<in>fst ` set es.
              p \<notin> set (copiedImages s) \<and> statRegular fs p = Some True \<and> openable fs p
                \<and> (\<forall>dst. creatable fs dst)
              \<longrightarrow> p \<in> set (copySources evs)))"
  using assms
proof (induction es arbitrary: s)
  case Nil
  then show ?case by simp
next
  case (Cons e es)
  let ?p = "fst e"
  obtain s1 where f: "scanImagesFn fs s e = (None, s1)"
    by (simp add: scanImagesFn_result)
  from Cons.prems have w: "walkEntries (scanImagesFn fs) es s1 = (r, s')"
    by (simp only: walkEntries.simps f prod.case option.case)
  from Cons.IH [OF w] obtain evs where r: "r = None"
    and wr: "written s' = written s1 @ evs"
    and ci: "copiedImages s' = copiedImages s1 @ copySources evs"
    and di: "distinct (copySources evs)"
    and dj: "set (copySources evs) \<inter> set (copiedImages s1) = {}"
    and al: "\<forall>p\<in>fst ` set es.
              p \<notin> set (copiedImages s1) \<and> statRegular fs p = Some True \<and> openable fs p
                \<and> (\<forall>dst. creatable fs dst)
              \<longrightarrow> p \<in> set (copySources evs)"
    by blast
  define ev0 where "ev0 =
    (if ?p \<notin> set (copiedImages s) \<and> copyPossible fs ?p (sweepTarget fs s ?p)
     then [CopyFile ?p (sweepTarget fs s ?p) (fst (contents fs ?p))] else [])"
  have w1: "written s1 = written s @ ev0"
    and c1: "copiedImages s1 = copiedImages s @ copySources ev0"
    using f by (auto simp: scanImagesFn_result copy_state ev0_def)
  have src0: "set (copySources ev0) \<subseteq> {?p}" "set (copySources ev0) \<inter> set (copiedImages s) = {}"
    "distinct (copySources ev0)"
    by (simp_all add: ev0_def)
  have "written s' = written s @ (ev0 @ evs)"
    by (simp add: wr w1)
  moreover have "copiedImages s' = copiedImages s @ copySources (ev0 @ evs)"
    by (simp add: ci c1)
  moreover have "distinct (copySources (ev0 @ evs))"
    using di dj c1 src0 by auto
  moreover have "set (copySources (ev0 @ evs)) \<inter> set (copiedImages s) = {}"
    using dj c1 src0 by auto
  moreover have "\<forall>p\<in>fst ` set (e # es).
              p \<notin> set (copiedImages s) \<and> statRegular fs p = Some True \<and> openable fs p
                \<and> (\<forall>dst. creatable fs dst)
              \<longrightarrow> p \<in> set (copySources (ev0 @ evs))"
  proof (intro ballI impI)
    fix p
    assume p: "p \<in> fst ` set (e # es)"
      and h: "p \<notin> set (copiedImages s) \<and> statRegular fs p = Some True \<and> openable fs p
                \<and> (\<forall>dst. creatable fs dst)"
    show "p \<in> set (copySources (ev0 @ evs))"
    proof (cases "p = ?p")
      case True
      with h have "copySources ev0 = [p]"
        by (simp add: ev0_def copyPossible_def)
      then show ?thesis by simp
    next
      case False
      with p have pe: "p \<in> fst ` set es" by auto
      from False h src0 c1 have "p \<notin> set (copiedImages s1)" by auto
      with al pe h have "p \<in> set (copySources evs)" by blast
      then show ?thesis by simp
    qed
  qed
  ultimately show ?case using r by blast
qed

lemma count_list_distinct: "distinct xs \<Longrightarrow> x \<in> set xs \<Longrightarrow> count_list xs x = 1"
  by (induction xs) (auto simp: count_list_0_iff)

text \<open>
  Claim C9: every source image path copied during the annotation pass is recorded in
  \<open>copiedImages\<close>, and no copy of the sweep has such a source (nor do two copies of the
  sweep have the same source); when the annotation pass has ended without an error, a path
  \<open>p\<close> that the walk of the primary image root visits, that the annotation pass has not
  copied, that is a regular file that can be opened, in an output tree where every file
  can be created, is the source of exactly one copy of the whole run.
\<close>

theorem copied_once:
  assumes "scanAllLabelled yolo fs initState = (None, s1)" and "scanImages fs s1 = (r, s2)"
  shows "set (copySources (written s1)) = set (copiedImages s1)
     \<and> written s2 = written s1 @ sweepEvents s1 s2
     \<and> set (copySources (sweepEvents s1 s2)) \<inter> set (copySources (written s1)) = {}
     \<and> distinct (copySources (sweepEvents s1 s2))
     \<and> (p \<in> fst ` set (walk fs ''dataset/images'') \<and> p \<notin> set (copySources (written s1))
          \<and> statRegular fs p = Some True \<and> openable fs p \<and> (\<forall>dst. creatable fs dst)
        \<longrightarrow> count_list (copySources (written s2)) p = 1)"
proof -
  from recorded_scanAllLabelled [OF recorded_initState, of yolo fs] assms(1)
  have rec: "copiedImages s1 = copySources (written s1)"
    by (simp add: recorded_def)
  from assms(2) have "walkEntries (scanImagesFn fs) (walk fs ''dataset/images'') s1 = (r, s2)"
    by (simp add: scanImages_def WalkDir_def)
  from sweep_walk [OF this] obtain evs where wr: "written s2 = written s1 @ evs"
    and di: "distinct (copySources evs)"
    and dj: "set (copySources evs) \<inter> set (copiedImages s1) = {}"
    and al: "\<forall>p\<in>fst ` set (walk fs ''dataset/images'').
              p \<notin> set (copiedImages s1) \<and> statRegular fs p = Some True \<and> openable fs p
                \<and> (\<forall>dst. creatable fs dst)
              \<longrightarrow> p \<in> set (copySources evs)"
    by blast
  have ev: "sweepEvents s1 s2 = evs"
    by (simp add: sweepEvents_def wr)
  have "count_list (copySources (written s2)) p = 1"
    if "p \<in> fst ` set (walk fs ''dataset/images'')" "p \<notin> set (copySources (written s1))"
      "statRegular fs p = Some True" "openable fs p" "\<forall>dst. creatable fs dst"
  proof -
    from al that rec have "p \<in> set (copySources evs)" by auto
    with di have "count_list (copySources evs) p = 1" by (rule count_list_distinct)
    moreover from that(2) have "count_list (copySources (written s1)) p = 0"
      by (simp add: count_list_0_iff)
    ultimately show ?thesis by (simp add: wr)
  qed
  with rec wr ev di dj show ?thesis by auto
qed

theorem copied_once_witness:
  "fst (scanAllLabelled True (sampleFS (annotationOf ''50'')) initState) = None
   \<and> count_list
        (copySources (written (snd (scanImages (sampleFS (annotationOf ''50''))
           (snd (scanAllLabelled True (sampleFS (annotationOf ''50'')) initState))))))
        ''dataset/images/b.jpg'' = 1"
proof -
  let ?fs = "sampleFS (annotationOf ''50'')"
  let ?s1 = "snd (scanAllLabelled True ?fs initState)"
  have parsed: "Atoi ''50'' = (50, None)"
    by (simp add: atoi_eval)
  have pass: "scanAllLabelled True ?fs initState =
      (None, initState\<lparr>TotalCount := 1, copiedImages := [''dataset/images/a.jpg''],
          written := [WriteFile ''output/yolo/0.txt'' (yoloLine 0 10 10 50 30 100 50),
                      CopyFile ''dataset/images/a.jpg'' ''output/yolo/0.jpg'' ''JPEG'']\<rparr>)"
    by (simp add: sample_pass sample_step sampleFS_fields sample_yoloBranch [OF parsed]
        annotationOf_Path)
  then have first: "scanAllLabelled True ?fs initState = (None, ?s1)"
    by simp
  have sweep: "scanImages ?fs ?s1 = (fst (scanImages ?fs ?s1), snd (scanImages ?fs ?s1))"
    by simp
  have visited: "''dataset/images/b.jpg'' \<in> fst ` set (walk ?fs ''dataset/images'')"
    by (simp add: sampleFS_fields sampleWalk_roots)
  have fresh: "''dataset/images/b.jpg'' \<notin> set (copySources (written ?s1))"
    by (simp add: pass)
  have "count_list (copySources (written (snd (scanImages ?fs ?s1)))) ''dataset/images/b.jpg'' = 1"
  proof (rule copied_once [OF first sweep, THEN conjunct2, THEN conjunct2, THEN conjunct2,
        THEN conjunct2, THEN mp])
    show "''dataset/images/b.jpg'' \<in> fst ` set (walk ?fs ''dataset/images'')
      \<and> ''dataset/images/b.jpg'' \<notin> set (copySources (written ?s1))
      \<and> statRegular ?fs ''dataset/images/b.jpg'' = Some True
      \<and> openable ?fs ''dataset/images/b.jpg'' \<and> (\<forall>dst. creatable ?fs dst)"
      using visited fresh by (simp add: sampleFS_fields)
  qed
  moreover have "fst (scanAllLabelled True ?fs initState) = None"
    by (simp add: pass)
  ultimately show ?thesis by blast
qed

section \<open>Output names are issued once\<close>


















lemma targets_simps [simp]:
  "copyTargets [] = []"
  "copyTargets (WriteFile p b # evs) = copyTargets evs"
  "copyTargets (CopyFile src dst b # evs) = dst # copyTargets evs"
  "copyTargets (xs @ ys) = copyTargets xs @ copyTargets ys"
  "writeTargets [] = []"
  "writeTargets (WriteFile p b # evs) = p # writeTargets evs"
  "writeTargets (CopyFile src dst b # evs) = writeTargets evs"
  "writeTargets (xs @ ys) = writeTargets xs @ writeTargets ys"
  by (simp_all add: copyTargets_def writeTargets_def map_filter_def)






lemma copy_counts [simp]:
  "counts (snd (copy fs s src dst)) = counts s"
  "TotalCount (snd (copy fs s src dst)) = TotalCount s"
  by (simp_all add: copy_state)



















end
